theory Spec2Isabelle
  imports Main "HOL-Library.Sublist"
begin

section \<open>Strings, regular expressions and the process environment\<close>

text \<open>
  A JavaScript string is modelled by the list of the UTF-8 bytes of a well-formed text
  (\<^typ>\<open>string\<close>). The three regular expressions of the route handler, \<^verbatim>\<open>/^~/\<close> and
  \<^verbatim>\<open>/\.html?$/i\<close>, only name ASCII characters, and without the \<^verbatim>\<open>u\<close> flag the
  case-insensitive comparison of an ASCII letter accepts exactly its two ASCII cases, so
  matching on bytes and matching on UTF-16 code units agree.
\<close>

text \<open>
  \<^verbatim>\<open>String.prototype.replace\<close> with a string as replacement expands the patterns
  \<^verbatim>\<open>$$\<close>, \<^verbatim>\<open>$&\<close>, \<^verbatim>\<open>$`\<close> and \<^verbatim>\<open>$'\<close> of the replacement text. None of the
  regular expressions here has a capture group, so \<^verbatim>\<open>$1\<close> ... \<^verbatim>\<open>$99\<close> and
  \<^verbatim>\<open>$<\<close> stay literal. The arguments are the matched text, the text before the match,
  the text after it and the replacement template.
\<close>

fun getSubstitution :: "string \<Rightarrow> string \<Rightarrow> string \<Rightarrow> string \<Rightarrow> string" where
  "getSubstitution matched pre post [] = []"
| "getSubstitution matched pre post [c] = [c]"
| "getSubstitution matched pre post (c # d # rest) =
     (if c = CHR ''$'' then
        (if d = CHR ''$'' then CHR ''$'' # getSubstitution matched pre post rest
         else if d = CHR ''&'' then matched @ getSubstitution matched pre post rest
         else if d = CHR 0x60 then pre @ getSubstitution matched pre post rest
         else if d = CHR 0x27 then post @ getSubstitution matched pre post rest
         else c # getSubstitution matched pre post (d # rest))
      else c # getSubstitution matched pre post (d # rest))"

text \<open>\<^verbatim>\<open>s.replace(/^~/, replacement)\<close>: the pattern matches a tilde at index 0 only.\<close>

definition replaceLeadingTilde :: "string \<Rightarrow> string \<Rightarrow> string" where
  "replaceLeadingTilde s replacement =
     (case s of
        [] \<Rightarrow> s
      | c # rest \<Rightarrow>
          if c = CHR ''~'' then getSubstitution ''~'' [] rest replacement @ rest else s)"

text \<open>
  The variables of \<^verbatim>\<open>process.env\<close> that the handler reads; \<open>None\<close> is
  \<^verbatim>\<open>undefined\<close>.
\<close>

record env =
  HOME :: "string option"
  WORKSPACE_BASE_PATH :: "string option"
  PROJECTS_PATH :: "string option"

text \<open>\<^verbatim>\<open>v || fallback\<close> on a value that is a string or undefined.\<close>

definition orElse :: "string option \<Rightarrow> string \<Rightarrow> string" where
  "orElse v fallback = (case v of None \<Rightarrow> fallback | Some s \<Rightarrow> if s = [] then fallback else s)"

definition expandHome :: "env \<Rightarrow> string \<Rightarrow> string" where
  "expandHome e p = replaceLeadingTilde p (orElse (HOME e) [])"

definition getAllowedRoots :: "env \<Rightarrow> string list" where
  "getAllowedRoots e =
     (let workspaceBase =
            replaceLeadingTilde (orElse (WORKSPACE_BASE_PATH e) ''~/Documents/Shared'')
              (orElse (HOME e) []);
          projectsBase =
            replaceLeadingTilde (orElse (PROJECTS_PATH e) ''~/Documents/Shared/projects'')
              (orElse (HOME e) [])
      in [workspaceBase, projectsBase])"

text \<open>
  \<^verbatim>\<open>/\.html?$/i\<close> tried at one start position: a dot, then h, t, m in either
  case, then an optional l, then the end of the input.
\<close>

fun htmlExtAt :: "string \<Rightarrow> bool" where
  "htmlExtAt (d # h # t # m # rest) =
     (d = CHR ''.'' \<and> (h = CHR ''h'' \<or> h = CHR ''H'') \<and> (t = CHR ''t'' \<or> t = CHR ''T'')
      \<and> (m = CHR ''m'' \<or> m = CHR ''M'')
      \<and> (case rest of
            [] \<Rightarrow> True
          | l # rest' \<Rightarrow> (l = CHR ''l'' \<or> l = CHR ''L'') \<and> rest' = []))"
| "htmlExtAt _ = False"

text \<open>
  The search for the leftmost match, start positions tried from left to right; the result
  is the text before the match and the matched text (the match always ends the input).
\<close>

fun searchHtmlExt :: "string \<Rightarrow> (string \<times> string) option" where
  "searchHtmlExt [] = None"
| "searchHtmlExt (c # rest) =
     (if htmlExtAt (c # rest) then Some ([], c # rest)
      else map_option (\<lambda>(pre, matched). (c # pre, matched)) (searchHtmlExt rest))"

text \<open>\<^verbatim>\<open>/\.html?$/i.test(s)\<close> and \<^verbatim>\<open>s.replace(/\.html?$/i, replacement)\<close>.\<close>

definition testHtmlExt :: "string \<Rightarrow> bool" where
  "testHtmlExt s = (searchHtmlExt s \<noteq> None)"

definition replaceHtmlExt :: "string \<Rightarrow> string \<Rightarrow> string" where
  "replaceHtmlExt s replacement =
     (case searchHtmlExt s of
        None \<Rightarrow> s
      | Some (pre, matched) \<Rightarrow> pre @ getSubstitution matched pre [] replacement)"

text \<open>\<^verbatim>\<open>s.startsWith(t)\<close>.\<close>

fun startsWith :: "string \<Rightarrow> string \<Rightarrow> bool" where
  "startsWith s [] = True"
| "startsWith [] (c # t) = False"
| "startsWith (d # s) (c # t) = (d = c \<and> startsWith s t)"

section \<open>The route handler: POST /api/tasks/[id]/deliverables/[deliverableId]/pdf\<close>

text \<open>A row of the table \<^verbatim>\<open>task_deliverables\<close>, with the columns the handler names.\<close>

record row =
  row_id :: string
  task_id :: string
  deliverable_type :: string
  title :: string
  path :: "string option"
  description :: "string option"

text \<open>
  The effects of the handler that are visible outside it, in the order they happen. An
  effect is recorded when its call has returned; a call that throws records nothing.
\<close>

datatype event =
    ChromiumLaunch
  | NewPage
  | Goto string
  | Pdf string
  | BrowserClose
  | Broadcast "row option"
  | ConsoleError

text \<open>The calls of the handler that can throw for reasons outside it.\<close>

datatype step =
    StepGetDeliverable
  | StepLaunch
  | StepNewPage
  | StepGoto
  | StepPdf
  | StepClose
  | StepSelectExisting
  | StepInsert
  | StepReread
  | StepBroadcast

text \<open>
  Everything the handler reads or changes. \<open>existsSync\<close>, \<open>realpathSync\<close> (\<open>None\<close>
  when it throws), \<open>path_normalize\<close> and \<open>path_sep\<close> are the functions of Node's
  \<^verbatim>\<open>fs\<close> and \<^verbatim>\<open>path\<close> modules on the host; \<open>throws\<close> says which of the
  calls to the browser, the database and the event bus fail; \<open>randomUUID\<close> with
  \<open>uuid_calls\<close> is the supply of \<^verbatim>\<open>crypto.randomUUID()\<close>; the table is a list
  in the order in which \<^verbatim>\<open>SELECT\<close> visits the rows.
\<close>

record world =
  process_env :: env
  existsSync :: "string \<Rightarrow> bool"
  realpathSync :: "string \<Rightarrow> string option"
  path_normalize :: "string \<Rightarrow> string"
  path_sep :: string
  throws :: "step \<Rightarrow> bool"
  randomUUID :: "nat \<Rightarrow> string"
  uuid_calls :: nat
  task_deliverables :: "row list"
  log :: "event list"

datatype body =
    ErrorBody string
  | SuccessBody string "row option"

text \<open>
  What the caller of the handler gets: \<^verbatim>\<open>NextResponse.json(body, { status })\<close>, or
  an exception that leaves the handler.
\<close>

datatype outcome =
    Json nat body
  | Uncaught

definition emit :: "event \<Rightarrow> world \<Rightarrow> world" where
  "emit ev w = w\<lparr>log := log w @ [ev]\<rparr>"

text \<open>
  \<^verbatim>\<open>getAllowedRoots().filter(existsSync).map((root) => realpathSync(root))\<close>: the
  effective roots, or \<open>None\<close> when \<^verbatim>\<open>realpathSync\<close> throws on one of them.
\<close>

definition allowedRoots :: "world \<Rightarrow> string list option" where
  "allowedRoots w =
     those (map (realpathSync w) (filter (existsSync w) (getAllowedRoots (process_env w))))"

text \<open>
  \<^verbatim>\<open>roots.some((root) => resolvedSource === root || resolvedSource.startsWith(root + path.sep))\<close>
\<close>

definition allowed :: "string \<Rightarrow> string list \<Rightarrow> string \<Rightarrow> bool" where
  "allowed sep roots resolvedSource =
     list_ex (\<lambda>root. resolvedSource = root \<or> startsWith resolvedSource (root @ sep)) roots"

text \<open>
  Lines 22 to 60 of the handler: the lookup of the deliverable and the checks. The result
  is the early response, or the deliverable with \<^verbatim>\<open>sourcePath\<close> and
  \<^verbatim>\<open>resolvedSource\<close>.
\<close>

definition POST_checks :: "world \<Rightarrow> string \<Rightarrow> string \<Rightarrow> outcome + (row \<times> string \<times> string)" where
  "POST_checks w taskId deliverableId =
     (if throws w StepGetDeliverable then Inl Uncaught
      else
        case find (\<lambda>r. row_id r = deliverableId \<and> task_id r = taskId) (task_deliverables w) of
          None \<Rightarrow> Inl (Json 404 (ErrorBody ''Deliverable not found''))
        | Some deliverable \<Rightarrow>
            (case path deliverable of
               None \<Rightarrow> Inl (Json 400 (ErrorBody ''Deliverable is not a file path''))
             | Some p \<Rightarrow>
                 if p = [] \<or> deliverable_type deliverable \<noteq> ''file''
                 then Inl (Json 400 (ErrorBody ''Deliverable is not a file path''))
                 else if \<not> testHtmlExt p
                 then Inl (Json 400
                        (ErrorBody ''PDF generation currently supports HTML deliverables only''))
                 else
                   let sourcePath = path_normalize w (expandHome (process_env w) p) in
                   if \<not> existsSync w sourcePath
                   then Inl (Json 404 (ErrorBody ''Source file not found''))
                   else
                     (case realpathSync w sourcePath of
                        None \<Rightarrow> Inl (Json 400 (ErrorBody ''Unable to resolve source file path''))
                      | Some resolvedSource \<Rightarrow>
                          (case allowedRoots w of
                             None \<Rightarrow> Inl Uncaught
                           | Some roots \<Rightarrow>
                               if \<not> allowed (path_sep w) roots resolvedSource
                               then Inl (Json 403
                                      (ErrorBody ''Source path is outside allowed directories''))
                               else Inr (deliverable, sourcePath, resolvedSource)))))"

text \<open>The row that the \<^verbatim>\<open>INSERT\<close> statement of lines 81 to 90 adds.\<close>

definition pdfRow :: "string \<Rightarrow> string \<Rightarrow> row \<Rightarrow> string \<Rightarrow> row" where
  "pdfRow newId taskId deliverable pdfPath =
     \<lparr>row_id = newId, task_id = taskId, deliverable_type = ''file'',
      title = replaceHtmlExt (title deliverable) [] @ ''.pdf'',
      path = Some pdfPath,
      description = Some ''Generated from HTML deliverable''\<rparr>"

text \<open>
  The body of the \<^verbatim>\<open>try\<close> block, lines 65 to 104: \<open>None\<close> when a call threw, with
  the world as it was at the throw.
\<close>

definition POST_try :: "string \<Rightarrow> row \<Rightarrow> string \<Rightarrow> string \<Rightarrow> world \<Rightarrow> outcome option \<times> world" where
  "POST_try taskId deliverable resolvedSource pdfPath w =
     (if throws w StepLaunch then (None, w)
      else
        let w1 = emit ChromiumLaunch w in
        if throws w StepNewPage then (None, w1)
        else
          let w2 = emit NewPage w1 in
          if throws w StepGoto then (None, w2)
          else
            let w3 = emit (Goto (''file://'' @ resolvedSource)) w2 in
            if throws w StepPdf then (None, w3)
            else
              let w4 = emit (Pdf pdfPath) w3 in
              if throws w StepClose then (None, w4)
              else
                let w5 = emit BrowserClose w4 in
                if throws w StepSelectExisting then (None, w5)
                else
                  (case find (\<lambda>r. task_id r = taskId \<and> deliverable_type r = ''file''
                                    \<and> path r = Some pdfPath) (task_deliverables w5) of
                     Some existingPdf \<Rightarrow> (Some (Json 200 (SuccessBody pdfPath (Some existingPdf))), w5)
                   | None \<Rightarrow>
                       let newId = randomUUID w5 (uuid_calls w5);
                           w6 = w5\<lparr>uuid_calls := Suc (uuid_calls w5)\<rparr> in
                       if throws w StepInsert then (None, w6)
                       else
                         let w7 = w6\<lparr>task_deliverables :=
                                      task_deliverables w6 @ [pdfRow newId taskId deliverable pdfPath]\<rparr> in
                         if throws w StepReread then (None, w7)
                         else
                           let createdDeliverable =
                                 find (\<lambda>r. row_id r = newId) (task_deliverables w7) in
                           if throws w StepBroadcast then (None, w7)
                           else
                             (Some (Json 200 (SuccessBody pdfPath createdDeliverable)),
                              emit (Broadcast createdDeliverable) w7)))"

text \<open>The handler: the checks, the derived path of line 62, the try block and its catch.\<close>

definition POST :: "world \<Rightarrow> string \<Rightarrow> string \<Rightarrow> outcome \<times> world" where
  "POST w taskId deliverableId =
     (case POST_checks w taskId deliverableId of
        Inl response \<Rightarrow> (response, w)
      | Inr (deliverable, sourcePath, resolvedSource) \<Rightarrow>
          let pdfPath = replaceHtmlExt sourcePath ''.pdf'' in
          (case POST_try taskId deliverable resolvedSource pdfPath w of
             (Some response, w') \<Rightarrow> (response, w')
           | (None, w') \<Rightarrow>
               (Json 500 (ErrorBody ''Failed to generate PDF''), emit ConsoleError w')))"

text \<open>
  The number of browser processes left running by a log, when \<open>n\<close> were running before
  it: \<^verbatim>\<open>chromium.launch\<close> starts one, \<^verbatim>\<open>browser.close\<close> ends one.
\<close>

fun running :: "nat \<Rightarrow> event list \<Rightarrow> nat" where
  "running n [] = n"
| "running n (ev # evs) =
     running (if ev = ChromiumLaunch then Suc n else if ev = BrowserClose then n - 1 else n) evs"

text \<open>
  A sequence of calls of the handler, one after the other. Each call comes with the world
  it runs in (environment, file system, failures, identifiers), which may differ from call
  to call; the table is handed from each call to the next.
\<close>

fun POST_calls :: "row list \<Rightarrow> (world \<times> string \<times> string) list \<Rightarrow> row list" where
  "POST_calls rows [] = rows"
| "POST_calls rows ((w, taskId, deliverableId) # calls) =
     POST_calls
       (task_deliverables (snd (POST (w\<lparr>task_deliverables := rows\<rparr>) taskId deliverableId)))
       calls"

text \<open>
  The key that the \<^verbatim>\<open>SELECT\<close> of lines 72 to 76 compares: task, type \<^verbatim>\<open>file\<close> and
  the path as a string.
\<close>

definition dedupKeys :: "row list \<Rightarrow> (string \<times> string option) list" where
  "dedupKeys rows =
     map (\<lambda>r. (task_id r, path r))
       (filter (\<lambda>r. deliverable_type r = ''file'' \<and> path r \<noteq> None) rows)"

section \<open>The viewer: handleOpen of DeliverablesList\<close>

text \<open>
  \<^verbatim>\<open>encodeURIComponent\<close> on the UTF-8 bytes of a well-formed string: the unreserved
  characters stay, every other byte becomes a percent sign and two upper-case hexadecimal
  digits.
\<close>

definition hexDigit :: "nat \<Rightarrow> char" where
  "hexDigit n = ''0123456789ABCDEF'' ! (n mod 16)"

definition uriUnreserved :: "char \<Rightarrow> bool" where
  "uriUnreserved c =
     (c \<in> set ''ABCDEFGHIJKLMNOPQRSTUVWXYZabcdefghijklmnopqrstuvwxyz0123456789-_.!~*()''
      \<or> c = CHR 0x27)"

definition encodeURIComponent :: "string \<Rightarrow> string" where
  "encodeURIComponent s =
     concat (map (\<lambda>c. if uriUnreserved c then [c]
                       else [CHR ''%'', hexDigit (of_char c div 16), hexDigit (of_char c mod 16)]) s)"

text \<open>
  The answer to the probe \<^verbatim>\<open>fetch(previewUrl, { method: 'GET' })\<close>: a response with
  its \<^verbatim>\<open>ok\<close> flag, or a rejected promise.
\<close>

datatype fetchResult =
    FetchResponse bool
  | FetchRejected

text \<open>
  What \<^verbatim>\<open>handleOpen\<close> does in the browser, in order: the debug line, the request of
  the probe (recorded when it is sent), \<^verbatim>\<open>window.open(url, target)\<close> and
  \<^verbatim>\<open>console.error\<close>.
\<close>

datatype browserEvent =
    DebugFile string
  | Fetch string
  | WindowOpen string string
  | ConsoleErrorLog

definition handleOpen :: "(string \<Rightarrow> fetchResult) \<Rightarrow> row \<Rightarrow> browserEvent list" where
  "handleOpen fetch deliverable =
     (case path deliverable of
        None \<Rightarrow> []
      | Some p \<Rightarrow>
          if p = [] then []
          else if deliverable_type deliverable = ''url'' then [WindowOpen p ''_blank'']
          else
            let previewUrl = ''/api/files/preview?path='' @ encodeURIComponent p;
                downloadUrl = ''/api/files/download?path='' @ encodeURIComponent p @ ''&raw=true''
            in DebugFile p # Fetch previewUrl #
               (case fetch previewUrl of
                  FetchResponse ok \<Rightarrow>
                    if ok then [WindowOpen previewUrl ''_blank'']
                    else [WindowOpen downloadUrl ''_blank'']
                | FetchRejected \<Rightarrow> [ConsoleErrorLog, WindowOpen downloadUrl ''_blank'']))"

section \<open>Notions of the specification\<close>

text \<open>
  The specification's "case-insensitive .htm/.html extension": the text ends, once its
  ASCII capitals are lowered, in \<^verbatim>\<open>.htm\<close> or \<^verbatim>\<open>.html\<close>.
\<close>

definition lowerAscii :: "char \<Rightarrow> char" where
  "lowerAscii c =
     (let n = of_char c :: nat in if 65 \<le> n \<and> n \<le> 90 then char_of (n + 32) else c)"

definition isHtmlExtension :: "string \<Rightarrow> bool" where
  "isHtmlExtension ext = (map lowerAscii ext = ''.htm'' \<or> map lowerAscii ext = ''.html'')"

definition hasHtmlExtension :: "string \<Rightarrow> bool" where
  "hasHtmlExtension s =
     (isHtmlExtension (drop (length s - 4) s) \<or> isHtmlExtension (drop (length s - 5) s))"

text \<open>
  The specification's containment: the canonical path is an effective root (a configured
  root that exists, canonicalized) or lies below one, that is, begins with the root
  followed by the separator.
\<close>

definition containedInRoots :: "world \<Rightarrow> string \<Rightarrow> bool" where
  "containedInRoots w canonical =
     (\<exists>root \<in> set (getAllowedRoots (process_env w)).
        existsSync w root \<and>
        (case realpathSync w root of
           None \<Rightarrow> False
         | Some r \<Rightarrow> canonical = r \<or> prefix (r @ path_sep w) canonical))"

section \<open>A host for the examples\<close>

text \<open>
  One sandbox root exists, \<^verbatim>\<open>/srv/shared\<close>. Below it, \<^verbatim>\<open>alias\<close> is a symbolic
  link to the directory \<^verbatim>\<open>out\<close>, and \<^verbatim>\<open>out/leak.html\<close> is a symbolic link to a
  file outside the root; \<^verbatim>\<open>/tmp/in.html\<close>, outside the root, is a symbolic link to a
  file inside it. The list gives each path that exists with its canonical path (the PDF
  files as they are once written).
\<close>

definition hostFiles :: "(string \<times> string) list" where
  "hostFiles =
     [(''/srv/shared'', ''/srv/shared''),
      (''/srv/shared/out/report.html'', ''/srv/shared/out/report.html''),
      (''/srv/shared/out/notes.htm'', ''/srv/shared/out/notes.htm''),
      (''/srv/shared/alias/report.html'', ''/srv/shared/out/report.html''),
      (''/srv/shared/out/leak.html'', ''/etc/leak.html''),
      (''/tmp/in.html'', ''/srv/shared/out/report.html''),
      (''/srv/shared/out/report.pdf'', ''/srv/shared/out/report.pdf''),
      (''/srv/shared/alias/report.pdf'', ''/srv/shared/out/report.pdf''),
      (''/tmp/in.pdf'', ''/tmp/in.pdf'')]"

definition sourceRow :: "string \<Rightarrow> string \<Rightarrow> string \<Rightarrow> row" where
  "sourceRow i t p =
     \<lparr>row_id = i, task_id = ''t1'', deliverable_type = ''file'', title = t, path = Some p,
      description = None\<rparr>"

definition host :: world where
  "host =
     \<lparr>process_env =
        \<lparr>HOME = Some ''/home/op'', WORKSPACE_BASE_PATH = Some ''/srv/shared'',
         PROJECTS_PATH = None\<rparr>,
      existsSync = (\<lambda>p. map_of hostFiles p \<noteq> None),
      realpathSync = map_of hostFiles,
      path_normalize = (\<lambda>p. p),
      path_sep = ''/'',
      throws = (\<lambda>s. False),
      randomUUID = (\<lambda>n. ''uuid-'' @ replicate n CHR ''x''),
      uuid_calls = 0,
      task_deliverables =
        [sourceRow ''d1'' ''Report.html'' ''/srv/shared/out/report.html'',
         sourceRow ''d2'' ''Report.html'' ''/srv/shared/alias/report.html'',
         sourceRow ''d3'' ''Leak.html'' ''/srv/shared/out/leak.html'',
         sourceRow ''d4'' ''In.html'' ''/tmp/in.html'',
         sourceRow ''d5'' ''notes.txt'' ''/srv/shared/out/notes.txt'',
         sourceRow ''d6'' ''Notes'' ''/srv/shared/out/notes.htm''],
      log = []\<rparr>"

section \<open>Facts about the string functions\<close>

lemma startsWith_iff_prefix: "startsWith s t \<longleftrightarrow> prefix t s"
  by (induction s t rule: startsWith.induct) auto

lemma getSubstitution_plain: "CHR ''$'' \<notin> set r \<Longrightarrow> getSubstitution m b a r = r"
  by (induction m b a r rule: getSubstitution.induct) auto

lemma of_char_lowerAscii:
  "(of_char (lowerAscii c) :: nat) =
     (if 65 \<le> (of_char c :: nat) \<and> (of_char c :: nat) \<le> 90 then of_char c + 32 else of_char c)"
  by (simp add: lowerAscii_def Let_def)

lemma char_eq_of_char: "c = d \<longleftrightarrow> (of_char c :: nat) = of_char d"
  by simp

lemma lowerAscii_dot: "lowerAscii c = CHR ''.'' \<longleftrightarrow> c = CHR ''.''"
  unfolding char_eq_of_char [of _ "CHR ''.''"] of_char_lowerAscii by auto

lemma lowerAscii_h: "lowerAscii c = CHR ''h'' \<longleftrightarrow> c = CHR ''h'' \<or> c = CHR ''H''"
  unfolding char_eq_of_char [of _ "CHR ''h''"] char_eq_of_char [of _ "CHR ''H''"] of_char_lowerAscii
  by auto

lemma lowerAscii_t: "lowerAscii c = CHR ''t'' \<longleftrightarrow> c = CHR ''t'' \<or> c = CHR ''T''"
  unfolding char_eq_of_char [of _ "CHR ''t''"] char_eq_of_char [of _ "CHR ''T''"] of_char_lowerAscii
  by auto

lemma lowerAscii_m: "lowerAscii c = CHR ''m'' \<longleftrightarrow> c = CHR ''m'' \<or> c = CHR ''M''"
  unfolding char_eq_of_char [of _ "CHR ''m''"] char_eq_of_char [of _ "CHR ''M''"] of_char_lowerAscii
  by auto

lemma lowerAscii_l: "lowerAscii c = CHR ''l'' \<longleftrightarrow> c = CHR ''l'' \<or> c = CHR ''L''"
  unfolding char_eq_of_char [of _ "CHR ''l''"] char_eq_of_char [of _ "CHR ''L''"] of_char_lowerAscii
  by auto

lemmas lowerAscii_letters = lowerAscii_dot lowerAscii_h lowerAscii_t lowerAscii_m lowerAscii_l

lemma htmlExtAt_iff: "htmlExtAt m \<longleftrightarrow> isHtmlExtension m"
proof (induction m rule: htmlExtAt.induct)
  case (1 d h t m rest)
  show ?case
    by (cases rest) (auto simp: isHtmlExtension_def lowerAscii_letters)
qed (simp_all add: isHtmlExtension_def)

lemma htmlExtAt_shape:
  "htmlExtAt m \<Longrightarrow>
     (length m = 4 \<or> length m = 5) \<and> m ! 0 = CHR ''.'' \<and> (m ! 1 = CHR ''h'' \<or> m ! 1 = CHR ''H'')"
  by (induction m rule: htmlExtAt.induct) (auto split: list.splits)

lemma htmlExtAt_not_longer:
  assumes "htmlExtAt ext"
  shows "\<not> htmlExtAt (c # pre @ ext)"
proof
  assume "htmlExtAt (c # pre @ ext)"
  from htmlExtAt_shape [OF this] htmlExtAt_shape [OF assms]
  show False by (cases pre) auto
qed

lemma searchHtmlExt_append: "htmlExtAt ext \<Longrightarrow> searchHtmlExt (pre @ ext) = Some (pre, ext)"
proof (induction pre)
  case Nil
  then show ?case by (cases ext) auto
next
  case (Cons c pre)
  then show ?case using htmlExtAt_not_longer [of ext c pre] by simp
qed

lemma searchHtmlExt_Some: "searchHtmlExt s = Some (pre, m) \<Longrightarrow> s = pre @ m \<and> htmlExtAt m"
  by (induction s arbitrary: pre) (auto split: if_splits)

lemma searchHtmlExt_None: "searchHtmlExt s = None \<Longrightarrow> s = pre @ ext \<Longrightarrow> \<not> htmlExtAt ext"
  using searchHtmlExt_append [of ext pre] by auto

lemma testHtmlExt_iff_suffix:
  "testHtmlExt s \<longleftrightarrow> (\<exists>pre ext. s = pre @ ext \<and> isHtmlExtension ext)"
  unfolding testHtmlExt_def htmlExtAt_iff [symmetric]
  using searchHtmlExt_Some searchHtmlExt_None by (cases "searchHtmlExt s") fastforce+

lemma isHtmlExtension_length: "isHtmlExtension ext \<Longrightarrow> length ext = 4 \<or> length ext = 5"
  using htmlExtAt_shape htmlExtAt_iff by blast

lemma testHtmlExt_iff: "testHtmlExt s \<longleftrightarrow> hasHtmlExtension s"
proof
  assume "testHtmlExt s"
  then obtain pre ext where s: "s = pre @ ext" and ext: "isHtmlExtension ext"
    by (auto simp: testHtmlExt_iff_suffix)
  from isHtmlExtension_length [OF ext] s ext show "hasHtmlExtension s"
    by (auto simp: hasHtmlExtension_def)
next
  assume "hasHtmlExtension s"
  then consider "isHtmlExtension (drop (length s - 4) s)" | "isHtmlExtension (drop (length s - 5) s)"
    by (auto simp: hasHtmlExtension_def)
  then show "testHtmlExt s"
  proof cases
    case 1
    have "s = take (length s - 4) s @ drop (length s - 4) s" by simp
    with 1 show ?thesis unfolding testHtmlExt_iff_suffix by blast
  next
    case 2
    have "s = take (length s - 5) s @ drop (length s - 5) s" by simp
    with 2 show ?thesis unfolding testHtmlExt_iff_suffix by blast
  qed
qed

lemma replaceHtmlExt_match:
  "isHtmlExtension ext \<Longrightarrow> CHR ''$'' \<notin> set r \<Longrightarrow> replaceHtmlExt (base @ ext) r = base @ r"
  by (simp add: replaceHtmlExt_def searchHtmlExt_append htmlExtAt_iff getSubstitution_plain)

lemma replaceHtmlExt_no_match: "\<not> hasHtmlExtension s \<Longrightarrow> replaceHtmlExt s r = s"
  by (cases "searchHtmlExt s") (auto simp: replaceHtmlExt_def testHtmlExt_iff [symmetric] testHtmlExt_def)

section \<open>Facts about the handler\<close>

lemma find_append:
  "find P (xs @ ys) = (case find P xs of None \<Rightarrow> find P ys | Some x \<Rightarrow> Some x)"
  by (induction xs) auto

lemma log_emit [simp]: "log (emit ev w) = log w @ [ev]"
  and rows_emit [simp]: "task_deliverables (emit ev w) = task_deliverables w"
  by (simp_all add: emit_def)

lemma POST_Inl: "POST_checks w t d = Inl r \<Longrightarrow> POST w t d = (r, w)"
  by (simp add: POST_def)

lemma POST_checks_Inr:
  "POST_checks w taskId deliverableId = Inr (dl, sourcePath, resolvedSource) \<longleftrightarrow>
     \<not> throws w StepGetDeliverable
     \<and> find (\<lambda>r. row_id r = deliverableId \<and> task_id r = taskId) (task_deliverables w) = Some dl
     \<and> (\<exists>p. path dl = Some p \<and> p \<noteq> [] \<and> deliverable_type dl = ''file'' \<and> testHtmlExt p
            \<and> sourcePath = path_normalize w (expandHome (process_env w) p))
     \<and> existsSync w sourcePath
     \<and> realpathSync w sourcePath = Some resolvedSource
     \<and> (\<exists>roots. allowedRoots w = Some roots \<and> allowed (path_sep w) roots resolvedSource)"
  by (auto simp: POST_checks_def Let_def split: option.splits)

lemma POST_try_None_iff:
  "fst (POST_try t dl rs pp w) = None \<longleftrightarrow>
     throws w StepLaunch \<or> throws w StepNewPage \<or> throws w StepGoto \<or> throws w StepPdf
     \<or> throws w StepClose \<or> throws w StepSelectExisting
     \<or> (find (\<lambda>r. task_id r = t \<and> deliverable_type r = ''file'' \<and> path r = Some pp)
           (task_deliverables w) = None
        \<and> (throws w StepInsert \<or> throws w StepReread \<or> throws w StepBroadcast))"
  by (auto simp: POST_try_def Let_def split: option.splits)

lemma POST_try_Some:
  "fst (POST_try t dl rs pp w) = Some r \<Longrightarrow> \<exists>created. r = Json 200 (SuccessBody pp created)"
  by (auto simp: POST_try_def Let_def split: option.splits if_splits)

lemma POST_try_rows:
  "task_deliverables (snd (POST_try t dl rs pp w)) =
     (if throws w StepLaunch \<or> throws w StepNewPage \<or> throws w StepGoto \<or> throws w StepPdf
         \<or> throws w StepClose \<or> throws w StepSelectExisting \<or> throws w StepInsert
         \<or> find (\<lambda>r. task_id r = t \<and> deliverable_type r = ''file'' \<and> path r = Some pp)
              (task_deliverables w) \<noteq> None
      then task_deliverables w
      else task_deliverables w @ [pdfRow (randomUUID w (uuid_calls w)) t dl pp])"
  by (auto simp: POST_try_def Let_def emit_def split: option.splits)

lemma POST_Inr:
  "POST_checks w t d = Inr (dl, sp, rs) \<Longrightarrow>
     POST w t d =
       (case POST_try t dl rs (replaceHtmlExt sp ''.pdf'') w of
          (Some response, w') \<Rightarrow> (response, w')
        | (None, w') \<Rightarrow> (Json 500 (ErrorBody ''Failed to generate PDF''), emit ConsoleError w'))"
  by (simp add: POST_def)

lemma POST_Inr_fst:
  "POST_checks w t d = Inr (dl, sp, rs) \<Longrightarrow>
     fst (POST w t d) =
       (case fst (POST_try t dl rs (replaceHtmlExt sp ''.pdf'') w) of
          Some response \<Rightarrow> response
        | None \<Rightarrow> Json 500 (ErrorBody ''Failed to generate PDF''))"
  by (simp add: POST_Inr split: prod.splits option.splits)

lemma POST_Inr_rows:
  "POST_checks w t d = Inr (dl, sp, rs) \<Longrightarrow>
     task_deliverables (snd (POST w t d)) =
       task_deliverables (snd (POST_try t dl rs (replaceHtmlExt sp ''.pdf'') w))"
  by (simp add: POST_Inr split: prod.splits option.splits)

lemma those_map_set:
  "those (map f xs) = Some ys \<Longrightarrow> set ys = {y. \<exists>x \<in> set xs. f x = Some y}"
proof (induction xs arbitrary: ys)
  case Nil
  then show ?case by simp
next
  case (Cons x xs)
  then show ?case by (auto split: option.splits)
qed

lemma those_map_defined:
  "(\<forall>x \<in> set xs. f x \<noteq> None) \<Longrightarrow> those (map f xs) \<noteq> None"
  by (induction xs) (auto split: option.splits)

lemma allowed_iff_contained:
  assumes "allowedRoots w = Some roots"
  shows "allowed (path_sep w) roots canonical \<longleftrightarrow> containedInRoots w canonical"
proof -
  from those_map_set [OF assms [unfolded allowedRoots_def]]
  have "set roots =
      {r. \<exists>root \<in> set (getAllowedRoots (process_env w)). existsSync w root \<and> realpathSync w root = Some r}"
    by auto
  then show ?thesis
    unfolding allowed_def containedInRoots_def list_ex_iff startsWith_iff_prefix
    by (auto split: option.splits; blast)
qed

lemma allowedRoots_defined:
  assumes "\<forall>root \<in> set (getAllowedRoots (process_env w)). existsSync w root \<longrightarrow> realpathSync w root \<noteq> None"
  shows "\<exists>roots. allowedRoots w = Some roots"
proof -
  from assms have "those (map (realpathSync w) (filter (existsSync w) (getAllowedRoots (process_env w)))) \<noteq> None"
    by (intro those_map_defined) simp
  then show ?thesis
    by (auto simp: allowedRoots_def)
qed

lemma POST_checks_not_200: "POST_checks w t d \<noteq> Inl (Json 200 b)"
  by (auto simp: POST_checks_def Let_def split: option.splits)

lemma find_filter:
  "find P xs = (case filter P xs of [] \<Rightarrow> None | x # _ \<Rightarrow> Some x)"
  by (induction xs) auto

lemma POST_try_success:
  assumes "POST_try t dl rs pp w = (Some r, w1)"
  shows "\<not> throws w StepLaunch \<and> \<not> throws w StepNewPage \<and> \<not> throws w StepGoto
         \<and> \<not> throws w StepPdf \<and> \<not> throws w StepClose \<and> \<not> throws w StepSelectExisting
         \<and> (case find (\<lambda>r. task_id r = t \<and> deliverable_type r = ''file'' \<and> path r = Some pp)
                    (task_deliverables w) of
               Some e \<Rightarrow> r = Json 200 (SuccessBody pp (Some e))
                         \<and> task_deliverables w1 = task_deliverables w
             | None \<Rightarrow>
                 r = Json 200
                       (SuccessBody pp
                          (find (\<lambda>r. row_id r = randomUUID w (uuid_calls w))
                             (task_deliverables w @ [pdfRow (randomUUID w (uuid_calls w)) t dl pp])))
                 \<and> task_deliverables w1 =
                     task_deliverables w @ [pdfRow (randomUUID w (uuid_calls w)) t dl pp])"
  using assms
  by (auto simp: POST_try_def Let_def emit_def split: option.splits if_splits)

lemma POST_try_existing:
  assumes "\<not> throws w StepLaunch" "\<not> throws w StepNewPage" "\<not> throws w StepGoto"
    "\<not> throws w StepPdf" "\<not> throws w StepClose" "\<not> throws w StepSelectExisting"
    and "find (\<lambda>r. task_id r = t \<and> deliverable_type r = ''file'' \<and> path r = Some pp)
           (task_deliverables w) = Some e"
  shows "POST_try t dl rs pp w =
           (Some (Json 200 (SuccessBody pp (Some e))),
            w\<lparr>log := log w @ [ChromiumLaunch, NewPage, Goto (''file://'' @ rs), Pdf pp, BrowserClose]\<rparr>)"
  using assms by (simp add: POST_try_def Let_def emit_def)

lemma POST_rows_cases:
  "task_deliverables (snd (POST w t d)) = task_deliverables w
   \<or> (\<exists>dl pp.
         task_deliverables (snd (POST w t d)) =
           task_deliverables w @ [pdfRow (randomUUID w (uuid_calls w)) t dl pp]
         \<and> find (\<lambda>r. task_id r = t \<and> deliverable_type r = ''file'' \<and> path r = Some pp)
             (task_deliverables w) = None)"
proof (cases "POST_checks w t d")
  case (Inl r)
  then show ?thesis by (simp add: POST_Inl)
next
  case (Inr x)
  then obtain dl sp rs where checks: "POST_checks w t d = Inr (dl, sp, rs)"
    by (cases x) auto
  show ?thesis
    unfolding POST_Inr_rows [OF checks] POST_try_rows by auto
qed

lemma dedupKeys_append: "dedupKeys (xs @ ys) = dedupKeys xs @ dedupKeys ys"
  by (simp add: dedupKeys_def)

lemma dedupKeys_pdfRow: "dedupKeys [pdfRow i t dl pp] = [(t, Some pp)]"
  by (simp add: dedupKeys_def pdfRow_def)

lemma POST_keeps_dedupKeys_distinct:
  assumes "distinct (dedupKeys (task_deliverables w))"
  shows "distinct (dedupKeys (task_deliverables (snd (POST w t d))))"
proof -
  from POST_rows_cases [of w t d] show ?thesis
  proof
    assume "task_deliverables (snd (POST w t d)) = task_deliverables w"
    with assms show ?thesis by simp
  next
    assume "\<exists>dl pp.
         task_deliverables (snd (POST w t d)) =
           task_deliverables w @ [pdfRow (randomUUID w (uuid_calls w)) t dl pp]
         \<and> find (\<lambda>r. task_id r = t \<and> deliverable_type r = ''file'' \<and> path r = Some pp)
             (task_deliverables w) = None"
    then obtain dl pp where
      rows: "task_deliverables (snd (POST w t d)) =
           task_deliverables w @ [pdfRow (randomUUID w (uuid_calls w)) t dl pp]"
      and none: "find (\<lambda>r. task_id r = t \<and> deliverable_type r = ''file'' \<and> path r = Some pp)
             (task_deliverables w) = None"
      by blast
    from none have "(t, Some pp) \<notin> set (dedupKeys (task_deliverables w))"
      by (auto simp: find_None_iff dedupKeys_def)
    with assms show ?thesis
      by (simp add: rows dedupKeys_append dedupKeys_pdfRow)
  qed
qed

lemma fresh_find:
  assumes "randomUUID w (uuid_calls w) \<notin> row_id ` set (task_deliverables w)"
  shows "find (\<lambda>r. row_id r = randomUUID w (uuid_calls w)) (task_deliverables w) = None"
proof -
  have "\<not> (\<exists>x. x \<in> set (task_deliverables w) \<and> row_id x = randomUUID w (uuid_calls w))"
    using assms by (metis image_eqI)
  then show ?thesis
    unfolding find_None_iff .
qed

lemma POST_checks_same_host:
  assumes "POST_checks w t d = Inr (dl, sp, rs)"
    and "\<not> throws w2 StepGetDeliverable"
    and "find (\<lambda>r. row_id r = d \<and> task_id r = t) (task_deliverables w2) = Some dl"
    and "process_env w2 = process_env w" "existsSync w2 = existsSync w"
    and "realpathSync w2 = realpathSync w" "path_normalize w2 = path_normalize w"
    and "path_sep w2 = path_sep w"
  shows "POST_checks w2 t d = Inr (dl, sp, rs)"
  using assms unfolding POST_checks_Inr allowedRoots_def by simp

lemmas eval_defs =
  POST_def POST_checks_def POST_try_def pdfRow_def emit_def allowedRoots_def allowed_def
  getAllowedRoots_def expandHome_def replaceLeadingTilde_def orElse_def testHtmlExt_def
  replaceHtmlExt_def host_def hostFiles_def sourceRow_def Let_def

lemma host_checks_d1:
  "POST_checks (host\<lparr>throws := f\<rparr>) ''t1'' ''d1'' =
     (if f StepGetDeliverable then Inl Uncaught
      else Inr (sourceRow ''d1'' ''Report.html'' ''/srv/shared/out/report.html'',
                ''/srv/shared/out/report.html'', ''/srv/shared/out/report.html''))"
  by (simp add: eval_defs)

section \<open>The sandbox check\<close>

text \<open>
  C1: for a deliverable that reaches the sandbox check (found, of type \<^verbatim>\<open>file\<close>, with
  an HTML path that exists and resolves, on a host where every existing root resolves),
  the handler goes on to the render exactly when the canonical path is an effective root
  or begins with an effective root followed by the separator, and it answers 403
  \<^verbatim>\<open>Source path is outside allowed directories\<close>, changing nothing, exactly when it
  is not. The criterion reads the canonical path only, so a path whose spelling lies
  under a root and whose symbolic link leads outside is rejected; a canonical path equal
  to an effective root is accepted; when no configured root exists, every path is
  rejected.
\<close>

theorem sandbox_check_iff:
  assumes "\<not> throws w StepGetDeliverable"
    and "find (\<lambda>r. row_id r = deliverableId \<and> task_id r = taskId) (task_deliverables w) = Some dl"
    and "path dl = Some p" and "p \<noteq> []" and "deliverable_type dl = ''file''"
    and "hasHtmlExtension p"
    and "sourcePath = path_normalize w (expandHome (process_env w) p)"
    and "existsSync w sourcePath"
    and "realpathSync w sourcePath = Some canonical"
    and "\<forall>root \<in> set (getAllowedRoots (process_env w)).
           existsSync w root \<longrightarrow> realpathSync w root \<noteq> None"
  shows "(POST_checks w taskId deliverableId = Inr (dl, sourcePath, canonical))
           = containedInRoots w canonical
         \<and> (POST w taskId deliverableId =
              (Json 403 (ErrorBody ''Source path is outside allowed directories''), w))
           = (\<not> containedInRoots w canonical)
         \<and> ((\<exists>root \<in> set (getAllowedRoots (process_env w)).
               existsSync w root \<and> realpathSync w root = Some canonical)
            \<longrightarrow> POST_checks w taskId deliverableId = Inr (dl, sourcePath, canonical))
         \<and> ((\<forall>root \<in> set (getAllowedRoots (process_env w)). \<not> existsSync w root)
            \<longrightarrow> POST w taskId deliverableId =
                  (Json 403 (ErrorBody ''Source path is outside allowed directories''), w))"
proof -
  from allowedRoots_defined [OF assms(10)] obtain roots where roots: "allowedRoots w = Some roots"
    by blast
  note iff = allowed_iff_contained [OF roots, of canonical]
  have accept: "(POST_checks w taskId deliverableId = Inr (dl, sourcePath, canonical))
      = containedInRoots w canonical"
    using assms(1-9) roots iff by (simp add: POST_checks_Inr testHtmlExt_iff)
  have reject_checks: "\<not> containedInRoots w canonical \<Longrightarrow>
      POST_checks w taskId deliverableId =
        Inl (Json 403 (ErrorBody ''Source path is outside allowed directories''))"
    using assms(1-9) roots iff by (simp add: POST_checks_def testHtmlExt_iff)
  have reject: "(POST w taskId deliverableId =
        (Json 403 (ErrorBody ''Source path is outside allowed directories''), w))
      = (\<not> containedInRoots w canonical)"
  proof (cases "containedInRoots w canonical")
    case True
    with accept have checks: "POST_checks w taskId deliverableId = Inr (dl, sourcePath, canonical)"
      by simp
    have "fst (POST w taskId deliverableId) \<noteq>
        Json 403 (ErrorBody ''Source path is outside allowed directories'')"
      using POST_try_Some [of taskId dl canonical "replaceHtmlExt sourcePath ''.pdf''" w]
      by (auto simp: POST_Inr_fst [OF checks] split: option.splits)
    with True show ?thesis by auto
  next
    case False
    with reject_checks show ?thesis by (simp add: POST_Inl)
  qed
  have "(\<exists>root \<in> set (getAllowedRoots (process_env w)).
           existsSync w root \<and> realpathSync w root = Some canonical)
        \<longrightarrow> containedInRoots w canonical"
    by (auto simp: containedInRoots_def)
  moreover have "(\<forall>root \<in> set (getAllowedRoots (process_env w)). \<not> existsSync w root)
        \<longrightarrow> \<not> containedInRoots w canonical"
    by (auto simp: containedInRoots_def)
  ultimately show ?thesis
    using accept reject by blast
qed

theorem sandbox_check_iff_witness:
  "map_of hostFiles ''/srv/shared/out/leak.html'' = Some ''/etc/leak.html''
   \<and> prefix ''/srv/shared/'' ''/srv/shared/out/leak.html''
   \<and> POST host ''t1'' ''d3'' =
       (Json 403 (ErrorBody ''Source path is outside allowed directories''), host)"
proof -
  let ?dl = "sourceRow ''d3'' ''Leak.html'' ''/srv/shared/out/leak.html''"
  have 1: "\<not> throws host StepGetDeliverable"
    by (simp add: host_def)
  have 2: "find (\<lambda>r. row_id r = ''d3'' \<and> task_id r = ''t1'') (task_deliverables host) = Some ?dl"
    by (simp add: host_def sourceRow_def)
  have 3: "path ?dl = Some ''/srv/shared/out/leak.html''" "''/srv/shared/out/leak.html'' \<noteq> []"
    "deliverable_type ?dl = ''file''"
    by (simp_all add: sourceRow_def)
  have 4: "hasHtmlExtension ''/srv/shared/out/leak.html''"
    by (simp add: hasHtmlExtension_def isHtmlExtension_def lowerAscii_def)
  have 5: "''/srv/shared/out/leak.html'' =
      path_normalize host (expandHome (process_env host) ''/srv/shared/out/leak.html'')"
    by (simp add: host_def expandHome_def replaceLeadingTilde_def)
  have 6: "existsSync host ''/srv/shared/out/leak.html''"
    by (simp add: host_def hostFiles_def)
  have 7: "realpathSync host ''/srv/shared/out/leak.html'' = Some ''/etc/leak.html''"
    by (simp add: host_def hostFiles_def)
  have 8: "\<forall>root \<in> set (getAllowedRoots (process_env host)).
      existsSync host root \<longrightarrow> realpathSync host root \<noteq> None"
    by (simp add: host_def)
  have 9: "\<not> containedInRoots host ''/etc/leak.html''"
    by (simp add: containedInRoots_def getAllowedRoots_def replaceLeadingTilde_def orElse_def
        host_def hostFiles_def)
  from sandbox_check_iff [OF 1 2 3 4 5 6 7 8] 9 show ?thesis
    by (simp add: hostFiles_def)
qed

section \<open>Home expansion\<close>

text \<open>
  C2 (as the specification words it): for a path beginning with a tilde, when no home
  directory is configured the expansion leaves the path unchanged. The code replaces the
  tilde by the empty string instead: with HOME unset, \<^verbatim>\<open>~/docs/a.html\<close> becomes
  \<^verbatim>\<open>/docs/a.html\<close>.
\<close>

theorem expandHome_unset_counterexample:
  "expandHome \<lparr>HOME = None, WORKSPACE_BASE_PATH = None, PROJECTS_PATH = None\<rparr> ''~/docs/a.html''
     = ''/docs/a.html''
   \<and> expandHome \<lparr>HOME = None, WORKSPACE_BASE_PATH = None, PROJECTS_PATH = None\<rparr> ''~/docs/a.html''
     \<noteq> ''~/docs/a.html''"
  by (simp add: expandHome_def replaceLeadingTilde_def orElse_def)

text \<open>
  C2 (amended): when HOME is unset or empty, the expansion removes the leading tilde and
  keeps the rest of the path; whatever HOME is, a path that does not begin with a tilde
  is returned unchanged.
\<close>

theorem expandHome_amended:
  "(HOME e = None \<or> HOME e = Some [] \<longrightarrow> expandHome e (CHR ''~'' # rest) = rest)
   \<and> ((p = [] \<or> hd p \<noteq> CHR ''~'') \<longrightarrow> expandHome e p = p)"
  by (cases p) (auto simp: expandHome_def replaceLeadingTilde_def orElse_def)

theorem expandHome_amended_witness:
  "expandHome \<lparr>HOME = Some [], WORKSPACE_BASE_PATH = None, PROJECTS_PATH = None\<rparr> ''~/docs/a.html''
     = ''/docs/a.html''
   \<and> expandHome \<lparr>HOME = Some [], WORKSPACE_BASE_PATH = None, PROJECTS_PATH = None\<rparr> ''/srv/a.html''
     = ''/srv/a.html''"
  using expandHome_amended
    [of "\<lparr>HOME = Some [], WORKSPACE_BASE_PATH = None, PROJECTS_PATH = None\<rparr>"
        "''/docs/a.html''" "''/srv/a.html''"]
  by simp

section \<open>Tear-down of the rendering engine\<close>

text \<open>
  C3: the engine process is torn down on every exit path of the render. The handler calls
  \<^verbatim>\<open>browser.close()\<close> inside the \<^verbatim>\<open>try\<close> block, after \<^verbatim>\<open>page.pdf\<close>, and has no
  \<^verbatim>\<open>finally\<close>: when \<^verbatim>\<open>page.goto\<close> throws, the handler answers 500 and the browser
  it launched is still running, whereas the same request without the failure leaves no
  browser running.
\<close>

theorem browser_left_running_when_navigation_fails:
  "fst (POST (host\<lparr>throws := (\<lambda>s. s = StepGoto)\<rparr>) ''t1'' ''d1'')
     = Json 500 (ErrorBody ''Failed to generate PDF'')
   \<and> log (snd (POST (host\<lparr>throws := (\<lambda>s. s = StepGoto)\<rparr>) ''t1'' ''d1''))
     = [ChromiumLaunch, NewPage, ConsoleError]
   \<and> running 0 (log (snd (POST (host\<lparr>throws := (\<lambda>s. s = StepGoto)\<rparr>) ''t1'' ''d1''))) = 1
   \<and> running 0 (log (snd (POST host ''t1'' ''d1''))) = 0"
  by (simp add: eval_defs)

section \<open>The path of the produced PDF\<close>

text \<open>
  C4 (as the specification words it): before the produced PDF path is handed to the
  find-or-insert of the record, that path is itself checked to lie within the sandbox
  roots. The handler has no such check. For the deliverable \<^verbatim>\<open>/tmp/in.html\<close>, a
  symbolic link from outside the root to a file inside it, the source passes the
  containment check, the PDF path is \<^verbatim>\<open>/tmp/in.pdf\<close>, and a row with that path is
  inserted and returned, although the check that the handler applies to the source rejects
  that path.
\<close>

theorem produced_path_not_revalidated_counterexample:
  "fst (POST host ''t1'' ''d4'') =
     Json 200
       (SuccessBody ''/tmp/in.pdf''
          (Some \<lparr>row_id = ''uuid-'', task_id = ''t1'', deliverable_type = ''file'',
                 title = ''In.pdf'', path = Some ''/tmp/in.pdf'',
                 description = Some ''Generated from HTML deliverable''\<rparr>))
   \<and> task_deliverables (snd (POST host ''t1'' ''d4'')) =
       task_deliverables host @
         [\<lparr>row_id = ''uuid-'', task_id = ''t1'', deliverable_type = ''file'',
           title = ''In.pdf'', path = Some ''/tmp/in.pdf'',
           description = Some ''Generated from HTML deliverable''\<rparr>]
   \<and> realpathSync host ''/tmp/in.pdf'' = Some ''/tmp/in.pdf''
   \<and> allowedRoots host = Some [''/srv/shared'']
   \<and> \<not> allowed (path_sep host) [''/srv/shared''] ''/tmp/in.pdf''"
  by (simp add: eval_defs)

text \<open>
  C4 (amended): the produced path is not validated again. Whenever the handler answers
  200, the path it reports is the home-expanded, normalized source path with its trailing
  \<^verbatim>\<open>.htm\<close>/\<^verbatim>\<open>.html\<close> replaced by \<^verbatim>\<open>.pdf\<close>; the containment that was checked is
  that of the canonical source path; and the table is unchanged or has gained one row
  that carries the reported path.
\<close>

theorem produced_path_is_derived:
  assumes "fst (POST w taskId deliverableId) = Json 200 (SuccessBody pdfPath created)"
  shows "\<exists>dl p canonical.
           find (\<lambda>r. row_id r = deliverableId \<and> task_id r = taskId) (task_deliverables w) = Some dl
           \<and> path dl = Some p
           \<and> pdfPath = replaceHtmlExt (path_normalize w (expandHome (process_env w) p)) ''.pdf''
           \<and> realpathSync w (path_normalize w (expandHome (process_env w) p)) = Some canonical
           \<and> containedInRoots w canonical
           \<and> (task_deliverables (snd (POST w taskId deliverableId)) = task_deliverables w
              \<or> task_deliverables (snd (POST w taskId deliverableId)) =
                  task_deliverables w @ [pdfRow (randomUUID w (uuid_calls w)) taskId dl pdfPath])"
proof (cases "POST_checks w taskId deliverableId")
  case (Inl r)
  with assms show ?thesis
    using POST_checks_not_200 [of w taskId deliverableId] by (simp add: POST_Inl)
next
  case (Inr x)
  then obtain dl sp rs where checks: "POST_checks w taskId deliverableId = Inr (dl, sp, rs)"
    by (cases x) auto
  from assms have pp: "pdfPath = replaceHtmlExt sp ''.pdf''"
    using POST_try_Some [of taskId dl rs "replaceHtmlExt sp ''.pdf''" w]
    by (auto simp: POST_Inr_fst [OF checks] split: option.splits)
  have rows: "task_deliverables (snd (POST w taskId deliverableId)) = task_deliverables w
      \<or> task_deliverables (snd (POST w taskId deliverableId)) =
          task_deliverables w @ [pdfRow (randomUUID w (uuid_calls w)) taskId dl pdfPath]"
    unfolding POST_Inr_rows [OF checks] POST_try_rows pp by simp
  from checks obtain p roots where
    "find (\<lambda>r. row_id r = deliverableId \<and> task_id r = taskId) (task_deliverables w) = Some dl"
    "path dl = Some p" "sp = path_normalize w (expandHome (process_env w) p)"
    "realpathSync w sp = Some rs" "allowedRoots w = Some roots" "allowed (path_sep w) roots rs"
    unfolding POST_checks_Inr by blast
  with pp rows allowed_iff_contained [of w roots rs] show ?thesis
    by auto
qed

theorem produced_path_is_derived_witness:
  "\<exists>canonical.
     ''/tmp/in.pdf'' = replaceHtmlExt (path_normalize host (expandHome (process_env host) ''/tmp/in.html'')) ''.pdf''
     \<and> realpathSync host (path_normalize host (expandHome (process_env host) ''/tmp/in.html'')) = Some canonical
     \<and> containedInRoots host canonical"
proof -
  have "fst (POST host ''t1'' ''d4'') =
     Json 200
       (SuccessBody ''/tmp/in.pdf''
          (Some \<lparr>row_id = ''uuid-'', task_id = ''t1'', deliverable_type = ''file'',
                 title = ''In.pdf'', path = Some ''/tmp/in.pdf'',
                 description = Some ''Generated from HTML deliverable''\<rparr>))"
    by (simp add: eval_defs)
  from produced_path_is_derived [OF this]
  show ?thesis
    by (auto simp: host_def sourceRow_def)
qed

section \<open>Rendering the same deliverable twice\<close>

text \<open>
  C5: a first call answers 200 for a deliverable; the identifier it may draw is not the
  identifier of a stored row, and the store holds at most one row with the task, the type
  \<^verbatim>\<open>file\<close> and the derived PDF path. A second call for the same deliverable then runs
  on the store the first call left, on the same host (environment and file system), and
  none of the calls it makes throws. Then the first call returned a stored row, that row is
  the only row of the store with the task, the type \<^verbatim>\<open>file\<close> and the derived path,
  and the second call answers 200 with that same row and path, leaves the store as it is
  and adds to the log the five engine events only: it broadcasts nothing.
\<close>

theorem render_twice_one_record:
  assumes first: "POST w taskId deliverableId = (Json 200 (SuccessBody pdfPath created), w1)"
    and fresh: "randomUUID w (uuid_calls w) \<notin> row_id ` set (task_deliverables w)"
    and atmost: "length (filter (\<lambda>r. task_id r = taskId \<and> deliverable_type r = ''file''
                                   \<and> path r = Some pdfPath) (task_deliverables w)) \<le> 1"
    and store: "task_deliverables w2 = task_deliverables w1"
    and host: "process_env w2 = process_env w" "existsSync w2 = existsSync w"
      "realpathSync w2 = realpathSync w" "path_normalize w2 = path_normalize w"
      "path_sep w2 = path_sep w"
    and nofail: "\<not> throws w2 StepGetDeliverable" "\<not> throws w2 StepLaunch"
      "\<not> throws w2 StepNewPage" "\<not> throws w2 StepGoto" "\<not> throws w2 StepPdf"
      "\<not> throws w2 StepClose" "\<not> throws w2 StepSelectExisting"
  shows "\<exists>stored canonical.
           created = Some stored
           \<and> filter (\<lambda>r. task_id r = taskId \<and> deliverable_type r = ''file'' \<and> path r = Some pdfPath)
               (task_deliverables w1) = [stored]
           \<and> POST w2 taskId deliverableId =
               (Json 200 (SuccessBody pdfPath (Some stored)),
                w2\<lparr>log := log w2 @ [ChromiumLaunch, NewPage, Goto (''file://'' @ canonical),
                                     Pdf pdfPath, BrowserClose]\<rparr>)"
proof -
  let ?match = "\<lambda>r. task_id r = taskId \<and> deliverable_type r = ''file'' \<and> path r = Some pdfPath"
  let ?newId = "randomUUID w (uuid_calls w)"
  obtain dl sp rs where checks: "POST_checks w taskId deliverableId = Inr (dl, sp, rs)"
  proof (cases "POST_checks w taskId deliverableId")
    case (Inl r)
    with first POST_checks_not_200 [of w taskId deliverableId] show ?thesis
      by (simp add: POST_Inl)
  next
    case (Inr x)
    with that show ?thesis by (cases x) auto
  qed
  from first have attempt: "POST_try taskId dl rs (replaceHtmlExt sp ''.pdf'') w =
      (Some (Json 200 (SuccessBody pdfPath created)), w1)"
    by (auto simp: POST_Inr [OF checks] split: prod.splits option.splits)
  from POST_try_Some [of taskId dl rs "replaceHtmlExt sp ''.pdf''" w] attempt
  have pp: "replaceHtmlExt sp ''.pdf'' = pdfPath"
    by simp
  note success = POST_try_success [OF attempt, unfolded pp]
  let ?new = "pdfRow ?newId taskId dl pdfPath"
  have "\<exists>stored. created = Some stored \<and> filter ?match (task_deliverables w1) = [stored]
      \<and> (\<exists>older. task_deliverables w1 = task_deliverables w @ older)"
  proof (cases "find ?match (task_deliverables w)")
    case None
    with success have created: "created = find (\<lambda>r. row_id r = ?newId) (task_deliverables w @ [?new])"
      and rows: "task_deliverables w1 = task_deliverables w @ [?new]"
      by simp_all
    from fresh have "find (\<lambda>r. row_id r = ?newId) (task_deliverables w) = None"
      by (rule fresh_find)
    then have "created = Some ?new"
      by (simp add: created find_append pdfRow_def)
    moreover from None have "filter ?match (task_deliverables w) = []"
      by (simp add: find_filter split: list.splits)
    then have "filter ?match (task_deliverables w1) = [?new]"
      by (simp add: rows pdfRow_def)
    ultimately show ?thesis
      using rows by blast
  next
    case (Some e)
    with success have created: "created = Some e" and rows: "task_deliverables w1 = task_deliverables w"
      by simp_all
    from Some obtain others where "filter ?match (task_deliverables w) = e # others"
      by (auto simp: find_filter split: list.splits)
    with atmost have "filter ?match (task_deliverables w) = [e]"
      by simp
    with created rows show ?thesis
      by simp
  qed
  then obtain stored older where created: "created = Some stored"
    and one: "filter ?match (task_deliverables w1) = [stored]"
    and grown: "task_deliverables w1 = task_deliverables w @ older"
    by blast
  from checks have "find (\<lambda>r. row_id r = deliverableId \<and> task_id r = taskId) (task_deliverables w) = Some dl"
    unfolding POST_checks_Inr by blast
  then have "find (\<lambda>r. row_id r = deliverableId \<and> task_id r = taskId) (task_deliverables w2) = Some dl"
    by (simp add: store grown find_append)
  from POST_checks_same_host [OF checks nofail(1) this host]
  have checks2: "POST_checks w2 taskId deliverableId = Inr (dl, sp, rs)" .
  from one have "find ?match (task_deliverables w2) = Some stored"
    by (simp add: store find_filter)
  from POST_try_existing [OF nofail(2-7) this]
  have "POST w2 taskId deliverableId =
      (Json 200 (SuccessBody pdfPath (Some stored)),
       w2\<lparr>log := log w2 @ [ChromiumLaunch, NewPage, Goto (''file://'' @ rs), Pdf pdfPath, BrowserClose]\<rparr>)"
    by (simp add: POST_Inr [OF checks2] pp)
  with created one show ?thesis
    by blast
qed

theorem render_twice_one_record_witness:
  "\<exists>stored.
     fst (POST host ''t1'' ''d1'') = Json 200 (SuccessBody ''/srv/shared/out/report.pdf'' (Some stored))
     \<and> fst (POST (snd (POST host ''t1'' ''d1'')) ''t1'' ''d1'') =
         Json 200 (SuccessBody ''/srv/shared/out/report.pdf'' (Some stored))
     \<and> task_deliverables (snd (POST (snd (POST host ''t1'' ''d1'')) ''t1'' ''d1'')) =
         task_deliverables host @ [stored]
     \<and> log (snd (POST (snd (POST host ''t1'' ''d1'')) ''t1'' ''d1'')) =
         log (snd (POST host ''t1'' ''d1'')) @
           [ChromiumLaunch, NewPage, Goto ''file:///srv/shared/out/report.html'',
            Pdf ''/srv/shared/out/report.pdf'', BrowserClose]"
proof -
  let ?new = "\<lparr>row_id = ''uuid-'', task_id = ''t1'', deliverable_type = ''file'',
      title = ''Report.pdf'', path = Some ''/srv/shared/out/report.pdf'',
      description = Some ''Generated from HTML deliverable''\<rparr>"
  let ?w1 = "snd (POST host ''t1'' ''d1'')"
  have first: "POST host ''t1'' ''d1'' =
      (Json 200 (SuccessBody ''/srv/shared/out/report.pdf'' (Some ?new)), ?w1)"
    by (simp add: eval_defs)
  have w1: "?w1 = host
      \<lparr>uuid_calls := 1, task_deliverables := task_deliverables host @ [?new],
       log := [ChromiumLaunch, NewPage, Goto ''file:///srv/shared/out/report.html'',
               Pdf ''/srv/shared/out/report.pdf'', BrowserClose, Broadcast (Some ?new)]\<rparr>"
    by (simp add: eval_defs)
  have fresh: "randomUUID host (uuid_calls host) \<notin> row_id ` set (task_deliverables host)"
    by (simp add: host_def sourceRow_def)
  have atmost: "length (filter (\<lambda>r. task_id r = ''t1'' \<and> deliverable_type r = ''file''
      \<and> path r = Some ''/srv/shared/out/report.pdf'') (task_deliverables host)) \<le> 1"
    by (simp add: host_def sourceRow_def)
  have host2: "process_env ?w1 = process_env host" "existsSync ?w1 = existsSync host"
      "realpathSync ?w1 = realpathSync host" "path_normalize ?w1 = path_normalize host"
      "path_sep ?w1 = path_sep host"
    and nofail: "\<not> throws ?w1 StepGetDeliverable" "\<not> throws ?w1 StepLaunch"
      "\<not> throws ?w1 StepNewPage" "\<not> throws ?w1 StepGoto" "\<not> throws ?w1 StepPdf"
      "\<not> throws ?w1 StepClose" "\<not> throws ?w1 StepSelectExisting"
    unfolding w1 by (simp_all add: host_def)
  from render_twice_one_record [OF first fresh atmost refl host2 nofail]
  obtain canonical where second: "POST ?w1 ''t1'' ''d1'' =
      (Json 200 (SuccessBody ''/srv/shared/out/report.pdf'' (Some ?new)),
       ?w1\<lparr>log := log ?w1 @ [ChromiumLaunch, NewPage, Goto (''file://'' @ canonical),
                            Pdf ''/srv/shared/out/report.pdf'', BrowserClose]\<rparr>)"
    by auto
  have "fst (POST ?w1 ''t1'' ''d1'') =
      Json 200 (SuccessBody ''/srv/shared/out/report.pdf'' (Some ?new))"
    by (simp add: second)
  moreover have "task_deliverables (snd (POST ?w1 ''t1'' ''d1'')) = task_deliverables host @ [?new]"
    unfolding second by (simp add: w1)
  moreover have "log (snd (POST ?w1 ''t1'' ''d1'')) =
      log ?w1 @ [ChromiumLaunch, NewPage, Goto ''file:///srv/shared/out/report.html'',
            Pdf ''/srv/shared/out/report.pdf'', BrowserClose]"
    unfolding w1 by (simp add: eval_defs)
  moreover have "fst (POST host ''t1'' ''d1'') =
      Json 200 (SuccessBody ''/srv/shared/out/report.pdf'' (Some ?new))"
    by (simp add: eval_defs)
  ultimately show ?thesis
    by blast
qed

section \<open>The key of the deduplication\<close>

text \<open>
  C6 (as the specification words it): two stored rows of one task, of type \<^verbatim>\<open>file\<close>,
  whose paths resolve to the same file never both exist after a sequence of calls, even
  when the calls named the file through different spellings. The handler compares the
  path as a string, derived from the normalized source path and not from its canonical
  form: rendering \<^verbatim>\<open>out/report.html\<close> and then \<^verbatim>\<open>alias/report.html\<close>, where
  \<^verbatim>\<open>alias\<close> is a symbolic link to \<^verbatim>\<open>out\<close>, stores two rows whose paths resolve
  to the one file \<^verbatim>\<open>/srv/shared/out/report.pdf\<close>.
\<close>

theorem dedup_by_resolved_path_counterexample:
  "POST_calls (task_deliverables host)
     [(host, ''t1'', ''d1''), (host\<lparr>uuid_calls := 1\<rparr>, ''t1'', ''d2'')] =
     task_deliverables host @
       [\<lparr>row_id = ''uuid-'', task_id = ''t1'', deliverable_type = ''file'',
         title = ''Report.pdf'', path = Some ''/srv/shared/out/report.pdf'',
         description = Some ''Generated from HTML deliverable''\<rparr>,
        \<lparr>row_id = ''uuid-x'', task_id = ''t1'', deliverable_type = ''file'',
         title = ''Report.pdf'', path = Some ''/srv/shared/alias/report.pdf'',
         description = Some ''Generated from HTML deliverable''\<rparr>]
   \<and> realpathSync host ''/srv/shared/out/report.pdf'' = Some ''/srv/shared/out/report.pdf''
   \<and> realpathSync host ''/srv/shared/alias/report.pdf'' = Some ''/srv/shared/out/report.pdf''"
  by (simp add: eval_defs)

text \<open>
  C6 (amended): at most one stored row exists per task, type \<^verbatim>\<open>file\<close> and path
  string. A call adds a row only when no stored row has the same task, the type
  \<^verbatim>\<open>file\<close> and the same path string, so a store in which these keys are pairwise
  different stays so after any sequence of calls made one after the other, whatever the
  host of each call.
\<close>

theorem dedup_by_path_string:
  assumes "distinct (dedupKeys rows)"
  shows "distinct (dedupKeys (POST_calls rows calls))"
  using assms
proof (induction calls arbitrary: rows)
  case Nil
  then show ?case by simp
next
  case (Cons call calls)
  obtain w t d where call: "call = (w, t, d)"
    by (cases call) auto
  from Cons.prems have "distinct (dedupKeys (task_deliverables (w\<lparr>task_deliverables := rows\<rparr>)))"
    by simp
  from POST_keeps_dedupKeys_distinct [OF this] Cons.IH show ?case
    by (simp add: call)
qed

theorem dedup_by_path_string_witness:
  "distinct (dedupKeys (task_deliverables host))
   \<and> distinct (dedupKeys (POST_calls (task_deliverables host)
        [(host, ''t1'', ''d1''), (host\<lparr>uuid_calls := 1\<rparr>, ''t1'', ''d2''),
         (host\<lparr>uuid_calls := 2\<rparr>, ''t1'', ''d1'')]))"
proof -
  have "distinct (dedupKeys (task_deliverables host))"
    by (simp add: dedupKeys_def host_def sourceRow_def)
  with dedup_by_path_string [of "task_deliverables host"] show ?thesis
    by blast
qed

section \<open>Rejection of deliverables that are not HTML files\<close>

text \<open>
  C7: when the stored deliverable has no path, is not of type \<^verbatim>\<open>file\<close>, or its path
  does not end (ignoring case) in \<^verbatim>\<open>.htm\<close> or \<^verbatim>\<open>.html\<close>, the handler answers 400
  and leaves the world as it was: nothing is recorded in the log, so the engine was not
  launched.
\<close>

theorem not_html_rejected_before_launch:
  assumes "\<not> throws w StepGetDeliverable"
    and "find (\<lambda>r. row_id r = deliverableId \<and> task_id r = taskId) (task_deliverables w) = Some dl"
    and "path dl = None \<or> path dl = Some [] \<or> deliverable_type dl \<noteq> ''file''
         \<or> (\<exists>p. path dl = Some p \<and> \<not> hasHtmlExtension p)"
  shows "POST w taskId deliverableId =
           (Json 400
              (ErrorBody
                 (if path dl = None \<or> path dl = Some [] \<or> deliverable_type dl \<noteq> ''file''
                  then ''Deliverable is not a file path''
                  else ''PDF generation currently supports HTML deliverables only'')),
            w)"
proof -
  from assms have
    "POST_checks w taskId deliverableId =
       Inl (Json 400
              (ErrorBody
                 (if path dl = None \<or> path dl = Some [] \<or> deliverable_type dl \<noteq> ''file''
                  then ''Deliverable is not a file path''
                  else ''PDF generation currently supports HTML deliverables only'')))"
    by (auto simp: POST_checks_def testHtmlExt_iff split: option.splits)
  then show ?thesis
    by (rule POST_Inl)
qed

theorem not_html_rejected_before_launch_witness:
  "POST host ''t1'' ''d5'' =
     (Json 400 (ErrorBody ''PDF generation currently supports HTML deliverables only''), host)"
proof -
  let ?dl = "sourceRow ''d5'' ''notes.txt'' ''/srv/shared/out/notes.txt''"
  have "\<not> throws host StepGetDeliverable"
    by (simp add: host_def)
  moreover have "find (\<lambda>r. row_id r = ''d5'' \<and> task_id r = ''t1'') (task_deliverables host) = Some ?dl"
    by (simp add: host_def sourceRow_def)
  moreover have "path ?dl = None \<or> path ?dl = Some [] \<or> deliverable_type ?dl \<noteq> ''file''
      \<or> (\<exists>p. path ?dl = Some p \<and> \<not> hasHtmlExtension p)"
    by (simp add: sourceRow_def hasHtmlExtension_def isHtmlExtension_def)
  ultimately have "POST host ''t1'' ''d5'' =
      (Json 400
         (ErrorBody
            (if path ?dl = None \<or> path ?dl = Some [] \<or> deliverable_type ?dl \<noteq> ''file''
             then ''Deliverable is not a file path''
             else ''PDF generation currently supports HTML deliverables only'')),
       host)"
    by (rule not_html_rejected_before_launch)
  then show ?thesis
    by (simp add: sourceRow_def)
qed

section \<open>The title of the PDF record\<close>

text \<open>
  C9: whenever the handler adds a row, the row is appended to the table and its title is
  the title of the source deliverable without its trailing \<^verbatim>\<open>.htm\<close>/\<^verbatim>\<open>.html\<close>
  (ignoring case), followed by \<^verbatim>\<open>.pdf\<close>; a title without such an extension is kept
  whole. So \<^verbatim>\<open>Report.html\<close> gives \<^verbatim>\<open>Report.pdf\<close> and \<^verbatim>\<open>Notes\<close> gives
  \<^verbatim>\<open>Notes.pdf\<close>.
\<close>

theorem pdf_title_derivation:
  assumes "task_deliverables (snd (POST w taskId deliverableId)) \<noteq> task_deliverables w"
  shows "\<exists>dl new.
           find (\<lambda>r. row_id r = deliverableId \<and> task_id r = taskId) (task_deliverables w) = Some dl
           \<and> task_deliverables (snd (POST w taskId deliverableId)) = task_deliverables w @ [new]
           \<and> (\<forall>base ext. title dl = base @ ext \<and> isHtmlExtension ext \<longrightarrow> title new = base @ ''.pdf'')
           \<and> (\<not> hasHtmlExtension (title dl) \<longrightarrow> title new = title dl @ ''.pdf'')"
proof (cases "POST_checks w taskId deliverableId")
  case (Inl r)
  with assms show ?thesis by (simp add: POST_Inl)
next
  case (Inr x)
  then obtain dl sp rs where checks: "POST_checks w taskId deliverableId = Inr (dl, sp, rs)"
    by (cases x) auto
  let ?new = "pdfRow (randomUUID w (uuid_calls w)) taskId dl (replaceHtmlExt sp ''.pdf'')"
  from assms have rows: "task_deliverables (snd (POST w taskId deliverableId)) =
      task_deliverables w @ [?new]"
    unfolding POST_Inr_rows [OF checks] POST_try_rows by (simp split: if_splits)
  have "\<forall>base ext. title dl = base @ ext \<and> isHtmlExtension ext \<longrightarrow> title ?new = base @ ''.pdf''"
    by (auto simp: pdfRow_def replaceHtmlExt_match)
  moreover have "\<not> hasHtmlExtension (title dl) \<longrightarrow> title ?new = title dl @ ''.pdf''"
    by (simp add: pdfRow_def replaceHtmlExt_no_match)
  ultimately show ?thesis
    using checks rows unfolding POST_checks_Inr by blast
qed

theorem pdf_title_derivation_witness:
  "(\<exists>new. task_deliverables (snd (POST host ''t1'' ''d1'')) = task_deliverables host @ [new]
          \<and> title new = ''Report.pdf'')
   \<and> (\<exists>new. task_deliverables (snd (POST host ''t1'' ''d6'')) = task_deliverables host @ [new]
          \<and> title new = ''Notes.pdf'')"
proof
  have "task_deliverables (snd (POST host ''t1'' ''d1'')) \<noteq> task_deliverables host"
    by (simp add: eval_defs)
  from pdf_title_derivation [OF this] obtain dl new where
    dl: "find (\<lambda>r. row_id r = ''d1'' \<and> task_id r = ''t1'') (task_deliverables host) = Some dl"
    and rows: "task_deliverables (snd (POST host ''t1'' ''d1'')) = task_deliverables host @ [new]"
    and strip: "\<forall>base ext. title dl = base @ ext \<and> isHtmlExtension ext \<longrightarrow> title new = base @ ''.pdf''"
    by blast
  from dl have "title dl = ''Report'' @ ''.html''"
    by (auto simp: host_def sourceRow_def)
  moreover have "isHtmlExtension ''.html''"
    by (simp add: isHtmlExtension_def lowerAscii_def)
  ultimately have "title new = ''Report'' @ ''.pdf''"
    using strip by blast
  with rows show "\<exists>new. task_deliverables (snd (POST host ''t1'' ''d1'')) = task_deliverables host @ [new]
      \<and> title new = ''Report.pdf''"
    by simp
next
  have "task_deliverables (snd (POST host ''t1'' ''d6'')) \<noteq> task_deliverables host"
    by (simp add: eval_defs)
  from pdf_title_derivation [OF this] obtain dl new where
    dl: "find (\<lambda>r. row_id r = ''d6'' \<and> task_id r = ''t1'') (task_deliverables host) = Some dl"
    and rows: "task_deliverables (snd (POST host ''t1'' ''d6'')) = task_deliverables host @ [new]"
    and keep: "\<not> hasHtmlExtension (title dl) \<longrightarrow> title new = title dl @ ''.pdf''"
    by blast
  from dl have "title dl = ''Notes''"
    by (auto simp: host_def sourceRow_def)
  moreover have "\<not> hasHtmlExtension ''Notes''"
    by (simp add: hasHtmlExtension_def isHtmlExtension_def lowerAscii_def)
  ultimately have "title new = ''Notes.pdf''"
    using keep by simp
  with rows show "\<exists>new. task_deliverables (snd (POST host ''t1'' ''d6'')) = task_deliverables host @ [new]
      \<and> title new = ''Notes.pdf''"
    by simp
qed

section \<open>Failures after the containment check\<close>

text \<open>
  C10: once the checks have passed, the handler answers 500 with the one message
  \<^verbatim>\<open>Failed to generate PDF\<close> exactly when one of the calls it makes throws: the launch,
  the new page, the navigation, the PDF, the close, the lookup of an existing PDF row, or,
  when there is no such row, the insert, the re-read or the broadcast. When the re-read or
  the broadcast is the call that throws, the new row is in the table all the same.
\<close>

theorem failures_after_the_check_give_500:
  assumes "POST_checks w taskId deliverableId = Inr (dl, sourcePath, resolvedSource)"
    and "pdfPath = replaceHtmlExt sourcePath ''.pdf''"
    and "existingPdf =
           find (\<lambda>r. task_id r = taskId \<and> deliverable_type r = ''file'' \<and> path r = Some pdfPath)
             (task_deliverables w)"
  shows "(fst (POST w taskId deliverableId) = Json 500 (ErrorBody ''Failed to generate PDF'')) =
           (throws w StepLaunch \<or> throws w StepNewPage \<or> throws w StepGoto \<or> throws w StepPdf
            \<or> throws w StepClose \<or> throws w StepSelectExisting
            \<or> (existingPdf = None
               \<and> (throws w StepInsert \<or> throws w StepReread \<or> throws w StepBroadcast)))
         \<and> (\<not> (throws w StepLaunch \<or> throws w StepNewPage \<or> throws w StepGoto \<or> throws w StepPdf
                \<or> throws w StepClose \<or> throws w StepSelectExisting \<or> throws w StepInsert)
              \<and> existingPdf = None \<and> (throws w StepReread \<or> throws w StepBroadcast)
            \<longrightarrow> task_deliverables (snd (POST w taskId deliverableId)) =
                  task_deliverables w @
                    [pdfRow (randomUUID w (uuid_calls w)) taskId dl pdfPath])"
proof -
  let ?attempt = "POST_try taskId dl resolvedSource pdfPath w"
  have "(fst (POST w taskId deliverableId) = Json 500 (ErrorBody ''Failed to generate PDF'')) =
          (fst ?attempt = None)"
    using POST_try_Some [of taskId dl resolvedSource pdfPath w]
    by (auto simp: POST_Inr_fst [OF assms(1)] assms(2) split: option.splits)
  moreover have "task_deliverables (snd (POST w taskId deliverableId)) =
                   task_deliverables (snd ?attempt)"
    by (simp add: POST_Inr_rows [OF assms(1)] assms(2))
  ultimately show ?thesis
    by (simp add: POST_try_None_iff POST_try_rows assms(3))
qed


theorem failures_after_the_check_give_500_witness:
  "fst (POST (host\<lparr>throws := (\<lambda>s. s = StepBroadcast)\<rparr>) ''t1'' ''d1'')
     = Json 500 (ErrorBody ''Failed to generate PDF'')
   \<and> task_deliverables (snd (POST (host\<lparr>throws := (\<lambda>s. s = StepBroadcast)\<rparr>) ''t1'' ''d1''))
     = task_deliverables host @
         [\<lparr>row_id = ''uuid-'', task_id = ''t1'', deliverable_type = ''file'',
           title = ''Report.pdf'', path = Some ''/srv/shared/out/report.pdf'',
           description = Some ''Generated from HTML deliverable''\<rparr>]"
proof -
  let ?w = "host\<lparr>throws := (\<lambda>s. s = StepBroadcast)\<rparr>"
  have checks: "POST_checks ?w ''t1'' ''d1'' =
      Inr (sourceRow ''d1'' ''Report.html'' ''/srv/shared/out/report.html'',
           ''/srv/shared/out/report.html'', ''/srv/shared/out/report.html'')"
    by (simp add: host_checks_d1)
  from failures_after_the_check_give_500 [OF checks refl refl]
  show ?thesis
    by (simp add: replaceHtmlExt_def pdfRow_def host_def sourceRow_def)
qed

section \<open>The open action of the viewer\<close>

text \<open>
  C8: \<^verbatim>\<open>handleOpen\<close> does nothing for a deliverable without a path (absent or empty).
  For the type \<^verbatim>\<open>url\<close> it opens the path itself in a new tab and does nothing else:
  no request goes to the file endpoints. For every other type (so for \<^verbatim>\<open>file\<close>) it
  first sends the probe to the preview endpoint, then opens the preview endpoint when the
  probe answers with \<^verbatim>\<open>ok\<close>, and the raw-download endpoint when the probe answers
  without \<^verbatim>\<open>ok\<close> or is rejected.
\<close>

theorem handleOpen_negotiation:
  "(path dl = None \<or> path dl = Some [] \<longrightarrow> handleOpen fetch dl = [])
   \<and> (path dl = Some p \<and> p \<noteq> [] \<and> deliverable_type dl = ''url''
      \<longrightarrow> handleOpen fetch dl = [WindowOpen p ''_blank''])
   \<and> (path dl = Some p \<and> p \<noteq> [] \<and> deliverable_type dl \<noteq> ''url''
        \<and> previewUrl = ''/api/files/preview?path='' @ encodeURIComponent p
        \<and> downloadUrl = ''/api/files/download?path='' @ encodeURIComponent p @ ''&raw=true''
      \<longrightarrow> handleOpen fetch dl =
            (case fetch previewUrl of
               FetchResponse ok \<Rightarrow>
                 [DebugFile p, Fetch previewUrl,
                  WindowOpen (if ok then previewUrl else downloadUrl) ''_blank'']
             | FetchRejected \<Rightarrow>
                 [DebugFile p, Fetch previewUrl, ConsoleErrorLog, WindowOpen downloadUrl ''_blank'']))"
  by (auto simp: handleOpen_def Let_def split: fetchResult.splits)

theorem handleOpen_negotiation_witness:
  "handleOpen (\<lambda>u. FetchRejected) (sourceRow ''d5'' ''notes.txt'' ''/srv/my notes.txt'') =
     [DebugFile ''/srv/my notes.txt'',
      Fetch ''/api/files/preview?path=%2Fsrv%2Fmy%20notes.txt'',
      ConsoleErrorLog,
      WindowOpen ''/api/files/download?path=%2Fsrv%2Fmy%20notes.txt&raw=true'' ''_blank'']
   \<and> handleOpen (\<lambda>u. FetchResponse True) (sourceRow ''d5'' ''notes.txt'' ''/srv/my notes.txt'') =
     [DebugFile ''/srv/my notes.txt'',
      Fetch ''/api/files/preview?path=%2Fsrv%2Fmy%20notes.txt'',
      WindowOpen ''/api/files/preview?path=%2Fsrv%2Fmy%20notes.txt'' ''_blank'']"
proof -
  let ?dl = "sourceRow ''d5'' ''notes.txt'' ''/srv/my notes.txt''"
  have dl: "path ?dl = Some ''/srv/my notes.txt''" "''/srv/my notes.txt'' \<noteq> []"
    "deliverable_type ?dl \<noteq> ''url''"
    by (simp_all add: sourceRow_def)
  have enc: "encodeURIComponent ''/srv/my notes.txt'' = ''%2Fsrv%2Fmy%20notes.txt''"
    by (simp add: encodeURIComponent_def uriUnreserved_def hexDigit_def)
  from dl handleOpen_negotiation
    [of ?dl "\<lambda>u. FetchRejected" "''/srv/my notes.txt''"
       "''/api/files/preview?path=%2Fsrv%2Fmy%20notes.txt''"
       "''/api/files/download?path=%2Fsrv%2Fmy%20notes.txt&raw=true''"]
  have "handleOpen (\<lambda>u. FetchRejected) ?dl =
     [DebugFile ''/srv/my notes.txt'',
      Fetch ''/api/files/preview?path=%2Fsrv%2Fmy%20notes.txt'',
      ConsoleErrorLog,
      WindowOpen ''/api/files/download?path=%2Fsrv%2Fmy%20notes.txt&raw=true'' ''_blank'']"
    by (simp add: enc)
  moreover from dl handleOpen_negotiation
    [of ?dl "\<lambda>u. FetchResponse True" "''/srv/my notes.txt''"
       "''/api/files/preview?path=%2Fsrv%2Fmy%20notes.txt''"
       "''/api/files/download?path=%2Fsrv%2Fmy%20notes.txt&raw=true''"]
  have "handleOpen (\<lambda>u. FetchResponse True) ?dl =
     [DebugFile ''/srv/my notes.txt'',
      Fetch ''/api/files/preview?path=%2Fsrv%2Fmy%20notes.txt'',
      WindowOpen ''/api/files/preview?path=%2Fsrv%2Fmy%20notes.txt'' ''_blank'']"
    by (simp add: enc)
  ultimately show ?thesis
    by simp
qed

end
